theory Spec2Isabelle
  imports Main "HOL-Library.Sublist"
begin

section \<open>JavaScript values and strings\<close>

text \<open>
  The parser of \<^verbatim>\<open>git-repo-parser.ts\<close> works on JavaScript strings. A string is modelled
  as a \<^typ>\<open>string\<close>, one \<^typ>\<open>char\<close> per code unit; code units above U+00FF are outside
  the model. Characters are compared through their code, \<open>of_char c :: nat\<close>.
\<close>

definition code :: "char \<Rightarrow> nat" where
  "code c = of_char c"

definition is_digit :: "char \<Rightarrow> bool" where
  "is_digit c = (48 \<le> code c \<and> code c \<le> 57)"

definition is_upper :: "char \<Rightarrow> bool" where
  "is_upper c = (65 \<le> code c \<and> code c \<le> 90)"

definition is_lower :: "char \<Rightarrow> bool" where
  "is_lower c = (97 \<le> code c \<and> code c \<le> 122)"

definition is_alpha :: "char \<Rightarrow> bool" where
  "is_alpha c = (is_upper c \<or> is_lower c)"

text \<open>The regular-expression class \<^verbatim>\<open>\w\<close> (no \<^verbatim>\<open>u\<close> flag): \<^verbatim>\<open>[A-Za-z0-9_]\<close>.\<close>

definition is_word :: "char \<Rightarrow> bool" where
  "is_word c = (is_alpha c \<or> is_digit c \<or> code c = 95)"

text \<open>\<^verbatim>\<open>[\w-]\<close> and \<^verbatim>\<open>[\w.-]\<close>.\<close>

definition is_word_hyphen :: "char \<Rightarrow> bool" where
  "is_word_hyphen c = (is_word c \<or> code c = 45)"

definition is_word_dot_hyphen :: "char \<Rightarrow> bool" where
  "is_word_dot_hyphen c = (is_word c \<or> code c = 46 \<or> code c = 45)"

text \<open>\<^verbatim>\<open>[a-f0-9]\<close> under the \<^verbatim>\<open>i\<close> flag, and without it.\<close>

definition is_hex :: "char \<Rightarrow> bool" where
  "is_hex c = (is_digit c \<or> (97 \<le> code c \<and> code c \<le> 102) \<or> (65 \<le> code c \<and> code c \<le> 70))"

definition is_lower_hex :: "char \<Rightarrow> bool" where
  "is_lower_hex c = (is_digit c \<or> (97 \<le> code c \<and> code c \<le> 102))"

text \<open>ASCII lower-casing, the canonicalisation that the \<^verbatim>\<open>i\<close> flag applies to ASCII letters.\<close>

definition to_lower :: "char \<Rightarrow> char" where
  "to_lower c = (if is_upper c then char_of (code c + 32) else c)"

text \<open>\<^verbatim>\<open>s.includes(t)\<close>: \<open>t\<close> occurs in \<open>s\<close> as a contiguous substring.\<close>

fun js_includes :: "string \<Rightarrow> string \<Rightarrow> bool" where
  "js_includes [] t = (t = [])"
| "js_includes (c # cs) t = (prefix t (c # cs) \<or> js_includes cs t)"

text \<open>\<^verbatim>\<open>s.split(d)\<close> for a one-character separator: never empty, \<^verbatim>\<open>''.split('/')\<close> is \<^verbatim>\<open>['']\<close>.\<close>

fun split_on :: "char \<Rightarrow> string \<Rightarrow> string list" where
  "split_on d [] = [[]]"
| "split_on d (c # cs) =
     (if c = d then [] # split_on d cs
      else (case split_on d cs of [] \<Rightarrow> [[c]] | seg # segs \<Rightarrow> (c # seg) # segs))"

text \<open>\<^verbatim>\<open>s.replace(/\.git$/, '')\<close>: one trailing \<^verbatim>\<open>.git\<close> is removed.\<close>

definition strip_git :: "string \<Rightarrow> string" where
  "strip_git s = (if suffix ''.git'' s then take (length s - 4) s else s)"

text \<open>
  The values a response body can decode to, and the values the \<^verbatim>\<open>isPrivate\<close> field can
  hold at run time: the cast \<^verbatim>\<open>as GitHubRepoResponse\<close> checks nothing.
\<close>

datatype jsval =
    JUndefined
  | JNull
  | JBool bool
  | JNumber int
  | JString string
  | JArray "jsval list"
  | JObject "(string \<times> jsval) list"

text \<open>
  \<^verbatim>\<open>data.private\<close>: a TypeError (\<open>None\<close>) on \<^verbatim>\<open>null\<close> and \<^verbatim>\<open>undefined\<close>, the property
  of an object when it has one, \<^verbatim>\<open>undefined\<close> otherwise.
\<close>

fun get_private :: "jsval \<Rightarrow> jsval option" where
  "get_private JUndefined = None"
| "get_private JNull = None"
| "get_private (JObject kvs) =
     Some (case map_of kvs ''private'' of None \<Rightarrow> JUndefined | Some v \<Rightarrow> v)"
| "get_private v = Some JUndefined"

section \<open>The data model of the parser\<close>

datatype provider = github | gitlab | bitbucket

record GitRepoMetadata =
  owner :: string
  repo :: string
  branch :: "string option"
  commit :: "string option"
  provider :: provider
  isPrivate :: jsval

record ParsedGitUrl =
  metadata :: GitRepoMetadata
  normalizedUrl :: string
  originalUrl :: string

record ParseOptions =
  authToken :: "string option"

text \<open>
  What \<^verbatim>\<open>parse\<close> throws: the ZodError of the schema, the Error of the owner/repo check,
  and the TypeError of \<^verbatim>\<open>new URL\<close> at line 91.
\<close>

datatype error = InvalidFormat | MissingOwnerOrRepo | UrlTypeError

text \<open>
  The platform. \<^verbatim>\<open>new URL(s)\<close> is a function from strings to an object of which the
  parser reads \<^verbatim>\<open>hostname\<close> and \<^verbatim>\<open>pathname\<close>, or it throws (\<open>None\<close>). \<^verbatim>\<open>fetch\<close> maps
  the request URL and headers to a response, or it rejects (\<open>None\<close>); of a response the
  parser reads \<^verbatim>\<open>ok\<close>, \<^verbatim>\<open>status\<close>, \<^verbatim>\<open>statusText\<close>, \<^verbatim>\<open>text()\<close> and \<^verbatim>\<open>json()\<close>, the last two
  rejecting when \<open>None\<close>.
\<close>

record URL =
  hostname :: string
  pathname :: string

record response =
  ok :: bool
  status :: nat
  statusText :: string
  text_body :: "string option"
  json_body :: "jsval option"

type_synonym url_ctor = "string \<Rightarrow> URL option"
type_synonym headers = "(string \<times> string) list"
type_synonym fetcher = "string \<Rightarrow> headers \<Rightarrow> response option"

text \<open>The observable effects of a call, in order.\<close>

datatype event =
    Fetch string headers
  | ConsoleError string

section \<open>The URL constructor of the platform\<close>

text \<open>
  \<^verbatim>\<open>new URL(s)\<close> with no base, after the basic URL parser of the WHATWG URL Standard, as far
  as \<^verbatim>\<open>hostname\<close> and \<^verbatim>\<open>pathname\<close> depend on it. Two parts of host parsing are left to
  the parameter \<open>ext\<close> and never decided here: IPv6 literals, and Unicode ToASCII for a
  domain that is not plain ASCII or has a label starting with \<^verbatim>\<open>xn--\<close>.
\<close>

record host_ext =
  ipv6 :: "string \<Rightarrow> string option"
  toASCII :: "string \<Rightarrow> string option"

definition c0_or_space :: "char \<Rightarrow> bool" where
  "c0_or_space c = (code c \<le> 32)"

definition tab_or_newline :: "char \<Rightarrow> bool" where
  "tab_or_newline c = (code c = 9 \<or> code c = 10 \<or> code c = 13)"

text \<open>Leading and trailing C0 controls and spaces go, then every tab and newline.\<close>

definition preprocess :: "string \<Rightarrow> string" where
  "preprocess s =
     filter (\<lambda>c. \<not> tab_or_newline c)
       (rev (dropWhile c0_or_space (rev (dropWhile c0_or_space s))))"

definition is_scheme_char :: "char \<Rightarrow> bool" where
  "is_scheme_char c = (is_alpha c \<or> is_digit c \<or> code c = 43 \<or> code c = 45 \<or> code c = 46)"

text \<open>Scheme start state and scheme state: with no base, a missing scheme is a failure.\<close>

definition split_scheme :: "string \<Rightarrow> (string \<times> string) option" where
  "split_scheme s =
     (case s of
        [] \<Rightarrow> None
      | c # _ \<Rightarrow>
          if \<not> is_alpha c then None
          else (case dropWhile is_scheme_char s of
                  [] \<Rightarrow> None
                | d # rest \<Rightarrow>
                    if d = CHR '':'' then Some (map to_lower (takeWhile is_scheme_char s), rest)
                    else None))"

definition special_schemes :: "string list" where
  "special_schemes = [''ftp'', ''file'', ''http'', ''https'', ''ws'', ''wss'']"

subsection \<open>Percent-encoding\<close>

definition hex_digit :: "nat \<Rightarrow> char" where
  "hex_digit n = (if n < 10 then char_of (48 + n) else char_of (55 + n))"

definition pct_byte :: "nat \<Rightarrow> string" where
  "pct_byte n = [CHR ''%'', hex_digit (n div 16), hex_digit (n mod 16)]"

text \<open>The UTF-8 bytes of a code point up to U+00FF.\<close>

definition utf8_bytes :: "char \<Rightarrow> nat list" where
  "utf8_bytes c = (if code c < 128 then [code c] else [192 + code c div 64, 128 + code c mod 64])"

definition utf8_pct :: "char \<Rightarrow> string" where
  "utf8_pct c = concat (map pct_byte (utf8_bytes c))"

definition in_c0_set :: "char \<Rightarrow> bool" where
  "in_c0_set c = (code c < 32 \<or> code c > 126)"

definition in_query_set :: "char \<Rightarrow> bool" where
  "in_query_set c = (in_c0_set c \<or> code c \<in> {32, 34, 35, 60, 62})"

definition in_path_set :: "char \<Rightarrow> bool" where
  "in_path_set c = (in_query_set c \<or> code c \<in> {63, 94, 96, 123, 125})"

definition pct_path :: "char \<Rightarrow> string" where
  "pct_path c = (if in_path_set c then utf8_pct c else [c])"

definition pct_c0 :: "char \<Rightarrow> string" where
  "pct_c0 c = (if in_c0_set c then utf8_pct c else [c])"

definition hex_value :: "char \<Rightarrow> nat" where
  "hex_value c =
     (if is_digit c then code c - 48
      else if 97 \<le> code c \<and> code c \<le> 102 then code c - 87
      else code c - 55)"

text \<open>Percent-decoding, on the UTF-8 bytes of the input.\<close>

fun percent_decode :: "nat list \<Rightarrow> nat list" where
  "percent_decode (p # a # b # bs) =
     (if p = 37 \<and> a < 256 \<and> b < 256 \<and> is_hex (char_of a) \<and> is_hex (char_of b)
      then (16 * hex_value (char_of a) + hex_value (char_of b)) # percent_decode bs
      else p # percent_decode (a # b # bs))"
| "percent_decode bs = bs"

subsection \<open>Hosts\<close>

definition forbidden_host :: "char \<Rightarrow> bool" where
  "forbidden_host c =
     (code c \<in> {0, 9, 10, 13, 32, 35, 47, 58, 60, 62, 63, 64, 91, 92, 93, 94, 124})"

definition forbidden_domain :: "char \<Rightarrow> bool" where
  "forbidden_domain c = (forbidden_host c \<or> code c \<le> 31 \<or> code c = 37 \<or> code c = 127)"

definition opaque_host :: "string \<Rightarrow> string option" where
  "opaque_host s = (if list_ex forbidden_host s then None else Some (concat (map pct_c0 s)))"

fun digits_value :: "nat \<Rightarrow> nat \<Rightarrow> string \<Rightarrow> nat" where
  "digits_value R acc [] = acc"
| "digits_value R acc (c # cs) = digits_value R (acc * R + hex_value c) cs"

definition is_radix_digit :: "nat \<Rightarrow> char \<Rightarrow> bool" where
  "is_radix_digit R c =
     (if R = 16 then is_hex c
      else if R = 8 then (48 \<le> code c \<and> code c \<le> 55)
      else is_digit c)"

text \<open>The IPv4 number parser.\<close>

definition ipv4_number :: "string \<Rightarrow> nat option" where
  "ipv4_number s =
     (if s = [] then None
      else
        let (R, t) =
              (if 2 \<le> length s \<and> (take 2 s = ''0x'' \<or> take 2 s = ''0X'') then (16, drop 2 s)
               else if 2 \<le> length s \<and> hd s = CHR ''0'' then (8, tl s)
               else (10, s))
        in if t = [] then Some 0
           else if list_all (is_radix_digit R) t then Some (digits_value R 0 t)
           else None)"

definition ends_in_number :: "string \<Rightarrow> bool" where
  "ends_in_number s =
     (let parts = split_on (CHR ''.'') s in
      if last parts = [] \<and> length parts = 1 then False
      else
        let parts' = (if last parts = [] then butlast parts else parts); l = last parts'
        in (l \<noteq> [] \<and> list_all is_digit l) \<or> ipv4_number l \<noteq> None)"

fun dec :: "nat \<Rightarrow> string" where
  "dec n = (if n < 10 then [char_of (48 + n)] else dec (n div 10) @ [char_of (48 + n mod 10)])"

fun ipv4_sum :: "nat \<Rightarrow> nat list \<Rightarrow> nat" where
  "ipv4_sum k [] = 0"
| "ipv4_sum k (n # ns) = n * 256 ^ (3 - k) + ipv4_sum (Suc k) ns"

definition ipv4_serialize :: "nat \<Rightarrow> string" where
  "ipv4_serialize a =
     dec (a div 16777216) @ ''.'' @ dec (a div 65536 mod 256) @ ''.'' @
     dec (a div 256 mod 256) @ ''.'' @ dec (a mod 256)"

definition ipv4_parse :: "string \<Rightarrow> string option" where
  "ipv4_parse s =
     (let parts = split_on (CHR ''.'') s;
          parts' = (if last parts = [] \<and> 1 < length parts then butlast parts else parts)
      in if 4 < length parts' then None
         else
           let numbers = map ipv4_number parts' in
           if list_ex (\<lambda>n. n = None) numbers then None
           else
             let ns = map the numbers in
             if list_ex (\<lambda>n. 255 < n) (butlast ns) then None
             else if 256 ^ (5 - length ns) \<le> last ns then None
             else Some (ipv4_serialize (last ns + ipv4_sum 0 (butlast ns))))"

definition has_xn_label :: "string \<Rightarrow> bool" where
  "has_xn_label s = list_ex (\<lambda>l. prefix ''xn--'' (map to_lower l)) (split_on (CHR ''.'') s)"

text \<open>Domain to ASCII: on a plain ASCII domain with no \<^verbatim>\<open>xn--\<close> label it lower-cases.\<close>

definition domain_to_ascii :: "host_ext \<Rightarrow> nat list \<Rightarrow> string option" where
  "domain_to_ascii ext bytes =
     (let r = (if list_all (\<lambda>b. b < 128) bytes \<and> \<not> has_xn_label (map char_of bytes)
               then Some (map to_lower (map char_of bytes))
               else toASCII ext (map char_of bytes))
      in case r of
           None \<Rightarrow> None
         | Some a \<Rightarrow> if a = [] \<or> list_ex forbidden_domain a then None else Some a)"

text \<open>The host parser; \<open>opaque\<close> is true for a scheme that is not special.\<close>

definition host_parse :: "host_ext \<Rightarrow> bool \<Rightarrow> string \<Rightarrow> string option" where
  "host_parse ext opaque s =
     (if s \<noteq> [] \<and> hd s = CHR ''[''
      then (if last s \<noteq> CHR '']'' then None
            else (case ipv6 ext (butlast (tl s)) of
                    None \<Rightarrow> None
                  | Some a \<Rightarrow> Some (''['' @ a @ '']'')))
      else if opaque then opaque_host s
      else (case domain_to_ascii ext (percent_decode (concat (map utf8_bytes s))) of
              None \<Rightarrow> None
            | Some a \<Rightarrow> if ends_in_number a then ipv4_parse a else Some a))"

subsection \<open>Authority, host and port\<close>

definition authority_end :: "bool \<Rightarrow> char \<Rightarrow> bool" where
  "authority_end special c =
     (c = CHR ''/'' \<or> c = CHR ''?'' \<or> c = CHR ''#'' \<or> (special \<and> c = CHR 0x5C))"

text \<open>Host state: the first colon outside brackets separates host and port.\<close>

fun split_host_port :: "bool \<Rightarrow> string \<Rightarrow> string \<times> string option" where
  "split_host_port inside [] = ([], None)"
| "split_host_port inside (c # cs) =
     (if c = CHR '':'' \<and> \<not> inside then ([], Some cs)
      else
        let inside' = (if c = CHR ''['' then True else if c = CHR '']'' then False else inside);
            (h, p) = split_host_port inside' cs
        in (c # h, p))"

definition port_ok :: "string \<Rightarrow> bool" where
  "port_ok p =
     (dropWhile is_digit p = [] \<and> (p = [] \<or> digits_value 10 0 p \<le> 65535))"

text \<open>
  Authority, host and port states on the input after the slashes: the serialised host
  and the input from the end of the authority on, or failure.
\<close>

definition authority_state :: "host_ext \<Rightarrow> bool \<Rightarrow> string \<Rightarrow> (string \<times> string) option" where
  "authority_state ext special s =
     (let auth = takeWhile (\<lambda>c. \<not> authority_end special c) s;
          rest = dropWhile (\<lambda>c. \<not> authority_end special c) s;
          hostport = rev (takeWhile (\<lambda>c. c \<noteq> CHR ''@'') (rev auth))
      in if CHR ''@'' \<in> set auth \<and> hostport = [] then None
         else
           (case split_host_port False hostport of
              (h, Some p) \<Rightarrow>
                if h = [] then None
                else (case host_parse ext (\<not> special) h of
                        None \<Rightarrow> None
                      | Some host \<Rightarrow> if port_ok p then Some (host, rest) else None)
            | (h, None) \<Rightarrow>
                if special \<and> h = [] then None
                else (case host_parse ext (\<not> special) h of
                        None \<Rightarrow> None
                      | Some host \<Rightarrow> Some (host, rest))))"

subsection \<open>Paths\<close>

definition is_double_dot :: "string \<Rightarrow> bool" where
  "is_double_dot buf = (map to_lower buf \<in> set [''..'', ''.%2e'', ''%2e.'', ''%2e%2e''])"

definition is_single_dot :: "string \<Rightarrow> bool" where
  "is_single_dot buf = (map to_lower buf \<in> set [''.'', ''%2e''])"

definition windows_drive :: "string \<Rightarrow> bool" where
  "windows_drive buf =
     (case buf of [a, b] \<Rightarrow> is_alpha a \<and> (b = CHR '':'' \<or> b = CHR ''|'') | _ \<Rightarrow> False)"

definition normalized_drive :: "string \<Rightarrow> bool" where
  "normalized_drive buf = (case buf of [a, b] \<Rightarrow> is_alpha a \<and> b = CHR '':'' | _ \<Rightarrow> False)"

definition shorten :: "bool \<Rightarrow> string list \<Rightarrow> string list" where
  "shorten file path =
     (if file \<and> length path = 1 \<and> normalized_drive (hd path) then path else butlast path)"

text \<open>
  The end of a path segment in the path state; \<open>slash\<close> tells whether the segment ended
  at a separator.
\<close>

definition segment_end :: "bool \<Rightarrow> bool \<Rightarrow> string \<Rightarrow> string list \<Rightarrow> string list" where
  "segment_end file slash buf path =
     (if is_double_dot buf then (if slash then shorten file path else shorten file path @ [[]])
      else if is_single_dot buf then (if slash then path else path @ [[]])
      else path @ [if file \<and> path = [] \<and> windows_drive buf then [hd buf, CHR '':''] else buf])"

fun path_state :: "bool \<Rightarrow> bool \<Rightarrow> string \<Rightarrow> string list \<Rightarrow> string \<Rightarrow> string list" where
  "path_state special file buf path [] = segment_end file False buf path"
| "path_state special file buf path (c # cs) =
     (if c = CHR ''/'' \<or> (special \<and> c = CHR 0x5C)
      then path_state special file [] (segment_end file True buf path) cs
      else if c = CHR ''?'' \<or> c = CHR ''#'' then segment_end file False buf path
      else path_state special file (buf @ pct_path c) path cs)"

text \<open>Path start state.\<close>

definition path_start :: "bool \<Rightarrow> bool \<Rightarrow> string \<Rightarrow> string list" where
  "path_start special file s =
     (if special then
        (case s of
           [] \<Rightarrow> path_state True file [] [] []
         | c # cs \<Rightarrow> if c = CHR ''/'' \<or> c = CHR 0x5C then path_state True file [] [] cs
                     else path_state True file [] [] s)
      else
        (case s of
           [] \<Rightarrow> []
         | c # cs \<Rightarrow> if c = CHR ''?'' \<or> c = CHR ''#'' then []
                     else if c = CHR ''/'' then path_state False file [] [] cs
                     else path_state False file [] [] s))"

text \<open>Opaque path state.\<close>

fun opaque_path :: "string \<Rightarrow> string" where
  "opaque_path [] = []"
| "opaque_path (c # cs) =
     (if c = CHR ''?'' \<or> c = CHR ''#'' then []
      else if c = CHR '' '' then
        (case cs of
           [] \<Rightarrow> '' ''
         | d # _ \<Rightarrow> if d = CHR ''?'' \<or> d = CHR ''#'' then ''%20'' else CHR '' '' # opaque_path cs)
      else pct_c0 c @ opaque_path cs)"

definition serialize_path :: "string list \<Rightarrow> string" where
  "serialize_path path = concat (map (\<lambda>seg. CHR ''/'' # seg) path)"

subsection \<open>The file scheme\<close>

definition file_delim :: "char \<Rightarrow> bool" where
  "file_delim c = (c = CHR ''/'' \<or> c = CHR 0x5C \<or> c = CHR ''?'' \<or> c = CHR ''#'')"

definition file_host_state :: "host_ext \<Rightarrow> string \<Rightarrow> URL option" where
  "file_host_state ext s =
     (let buf = takeWhile (\<lambda>c. \<not> file_delim c) s;
          rest = dropWhile (\<lambda>c. \<not> file_delim c) s
      in if windows_drive buf
         then Some \<lparr> hostname = [], pathname = serialize_path (path_state True True buf [] rest) \<rparr>
         else if buf = []
         then Some \<lparr> hostname = [], pathname = serialize_path (path_start True True rest) \<rparr>
         else (case host_parse ext False buf of
                 None \<Rightarrow> None
               | Some host \<Rightarrow>
                   Some \<lparr> hostname = (if host = ''localhost'' then [] else host),
                          pathname = serialize_path (path_start True True rest) \<rparr>))"

definition file_state :: "host_ext \<Rightarrow> string \<Rightarrow> URL option" where
  "file_state ext s =
     (case s of
        c # d # rest \<Rightarrow>
          if (c = CHR ''/'' \<or> c = CHR 0x5C) \<and> (d = CHR ''/'' \<or> d = CHR 0x5C)
          then file_host_state ext rest
          else if c = CHR ''/'' \<or> c = CHR 0x5C
          then Some \<lparr> hostname = [], pathname = serialize_path (path_state True True [] [] (d # rest)) \<rparr>
          else Some \<lparr> hostname = [], pathname = serialize_path (path_state True True [] [] s) \<rparr>
      | [c] \<Rightarrow>
          if c = CHR ''/'' \<or> c = CHR 0x5C
          then Some \<lparr> hostname = [], pathname = serialize_path (path_state True True [] [] []) \<rparr>
          else Some \<lparr> hostname = [], pathname = serialize_path (path_state True True [] [] s) \<rparr>
      | [] \<Rightarrow> Some \<lparr> hostname = [], pathname = serialize_path (path_state True True [] [] []) \<rparr>)"

subsection \<open>The constructor\<close>

definition URL_new :: "host_ext \<Rightarrow> url_ctor" where
  "URL_new ext input =
     (case split_scheme (preprocess input) of
        None \<Rightarrow> None
      | Some (scheme, rest) \<Rightarrow>
          if scheme = ''file'' then file_state ext rest
          else if scheme \<in> set special_schemes then
            (case authority_state ext True
                    (dropWhile (\<lambda>c. c = CHR ''/'' \<or> c = CHR 0x5C) rest) of
               None \<Rightarrow> None
             | Some (host, rest') \<Rightarrow>
                 Some \<lparr> hostname = host, pathname = serialize_path (path_start True False rest') \<rparr>)
          else
            (case rest of
               c # rest1 \<Rightarrow>
                 if c = CHR ''/'' then
                   (case rest1 of
                      d # rest2 \<Rightarrow>
                        if d = CHR ''/'' then
                          (case authority_state ext False rest2 of
                             None \<Rightarrow> None
                           | Some (host, rest') \<Rightarrow>
                               Some \<lparr> hostname = host,
                                      pathname = serialize_path (path_start False False rest') \<rparr>)
                        else Some \<lparr> hostname = [],
                                    pathname = serialize_path (path_state False False [] [] rest1) \<rparr>
                    | [] \<Rightarrow> Some \<lparr> hostname = [],
                                   pathname = serialize_path (path_state False False [] [] []) \<rparr>)
                 else Some \<lparr> hostname = [], pathname = opaque_path rest \<rparr>
             | [] \<Rightarrow> Some \<lparr> hostname = [], pathname = [] \<rparr>))"

text \<open>A platform without IPv6 literals and Unicode domains, to run the model on.\<close>

definition no_ipv6 :: "string \<Rightarrow> string option" where
  "no_ipv6 s = None"

definition no_unicode :: "string \<Rightarrow> string option" where
  "no_unicode s = None"

definition ascii_only :: host_ext where
  "ascii_only = \<lparr> ipv6 = no_ipv6, toASCII = no_unicode \<rparr>"

section \<open>The schema and the patterns\<close>

text \<open>The shorthand pattern \<^verbatim>\<open>/^[\w-]+\/[\w.-]+$/\<close>.\<close>

definition shorthand_re :: "string \<Rightarrow> bool" where
  "shorthand_re s =
     (let a = takeWhile is_word_hyphen s; r = dropWhile is_word_hyphen s
      in a \<noteq> [] \<and> (case r of [] \<Rightarrow> False
           | c # b \<Rightarrow> c = CHR ''/'' \<and> b \<noteq> [] \<and> list_all is_word_dot_hyphen b))"

text \<open>The refinement of \<^verbatim>\<open>gitUrlSchema\<close>, lines 55 to 70.\<close>

definition gitUrlSchema :: "url_ctor \<Rightarrow> string \<Rightarrow> bool" where
  "gitUrlSchema U url =
     (if js_includes url ''://'' then (case U url of None \<Rightarrow> False | Some _ \<Rightarrow> True)
      else shorthand_re url)"

text \<open>
  \<^verbatim>\<open>PROVIDER_PATTERNS\<close>, in the order of \<^verbatim>\<open>Object.entries\<close>. Each pattern is an unanchored
  literal, so \<^verbatim>\<open>pattern.test(h)\<close> is a substring test.
\<close>

definition PROVIDER_PATTERNS :: "(provider \<times> string) list" where
  "PROVIDER_PATTERNS =
     [(github, ''github.com''), (gitlab, ''gitlab.com''), (bitbucket, ''bitbucket.org'')]"

definition detect_provider :: "string \<Rightarrow> provider" where
  "detect_provider host =
     (case find (\<lambda>(_, pattern). js_includes host pattern) PROVIDER_PATTERNS of
        None \<Rightarrow> github
      | Some (p, _) \<Rightarrow> p)"

text \<open>
  \<^verbatim>\<open>url.match(BRANCH_PATTERN)\<close>, group 1: the leftmost \<^verbatim>\<open>/tree/\<close> that is followed by a
  character of \<^verbatim>\<open>[\w.-]\<close>, and the longest run of such characters after it.
\<close>

fun match_branch :: "string \<Rightarrow> string option" where
  "match_branch [] = None"
| "match_branch (c # cs) =
     (if prefix ''/tree/'' (c # cs) \<and> takeWhile is_word_dot_hyphen (drop 6 (c # cs)) \<noteq> []
      then Some (takeWhile is_word_dot_hyphen (drop 6 (c # cs)))
      else match_branch cs)"

text \<open>
  \<^verbatim>\<open>url.match(COMMIT_PATTERN)\<close>, group 1. The pattern carries the \<^verbatim>\<open>i\<close> flag: the literal
  \<^verbatim>\<open>/commit/\<close> and the class \<^verbatim>\<open>[a-f0-9]\<close> match in either case.
\<close>

fun match_commit :: "string \<Rightarrow> string option" where
  "match_commit [] = None"
| "match_commit (c # cs) =
     (if prefix ''/commit/'' (map to_lower (take 8 (c # cs)))
         \<and> takeWhile is_hex (drop 8 (c # cs)) \<noteq> []
      then Some (takeWhile is_hex (drop 8 (c # cs)))
      else match_commit cs)"

section \<open>parse, validate, isValidProvider\<close>

text \<open>The request of the visibility lookup, lines 122 to 128.\<close>

definition request_headers :: "ParseOptions \<Rightarrow> headers" where
  "request_headers options =
     [(''Accept'', ''application/vnd.github.v3+json'')] @
     (case authToken options of
        None \<Rightarrow> []
      | Some t \<Rightarrow> if t = [] then [] else [(''Authorization'', ''token '' @ t)])"

definition request_url :: "string \<Rightarrow> string \<Rightarrow> string" where
  "request_url own cleanRepo = ''https://api.github.com/repos/'' @ own @ ''/'' @ cleanRepo"

text \<open>
  The visibility lookup of lines 119 to 142, with the events it produces. Every
  rejection inside the \<^verbatim>\<open>try\<close> block ends in the \<^verbatim>\<open>catch\<close> block, which logs and leaves
  \<^verbatim>\<open>isPrivate\<close> as it was.
\<close>

definition lookup_visibility ::
  "fetcher \<Rightarrow> ParseOptions \<Rightarrow> string \<Rightarrow> string \<Rightarrow> jsval \<times> event list" where
  "lookup_visibility fetch options own cleanRepo =
     (let hdrs = request_headers options;
          req = request_url own cleanRepo;
          failed = ConsoleError ''Failed to fetch repository visibility status:''
      in case fetch req hdrs of
           None \<Rightarrow> (JBool False, [Fetch req hdrs, failed])
         | Some resp \<Rightarrow>
             if \<not> ok resp then
               (case text_body resp of
                  None \<Rightarrow> (JBool False, [Fetch req hdrs, failed])
                | Some _ \<Rightarrow> (JBool False, [Fetch req hdrs, ConsoleError ''GitHub API Error:'']))
             else
               (case json_body resp of
                  None \<Rightarrow> (JBool False, [Fetch req hdrs, failed])
                | Some data \<Rightarrow>
                    (case get_private data of
                       None \<Rightarrow> (JBool False, [Fetch req hdrs, failed])
                     | Some v \<Rightarrow> (v, [Fetch req hdrs]))))"

text \<open>Shorthand expansion, lines 87 to 89.\<close>

definition expand :: "string \<Rightarrow> string" where
  "expand url = (if \<not> js_includes url ''://'' then ''https://github.com/'' @ url else url)"

text \<open>\<^verbatim>\<open>urlObj.pathname.split('/').filter(Boolean)\<close>.\<close>

definition pathSegments :: "URL \<Rightarrow> string list" where
  "pathSegments urlObj = filter (\<lambda>s. s \<noteq> []) (split_on (CHR ''/'') (pathname urlObj))"

text \<open>
  \<^verbatim>\<open>GitRepoParser.parse\<close>, lines 82 to 156. The destructuring \<^verbatim>\<open>[owner, repo]\<close> leaves
  a missing element \<^verbatim>\<open>undefined\<close>; \<^verbatim>\<open>!owner || !cleanRepo\<close> holds for \<^verbatim>\<open>undefined\<close> and for
  the empty string.
\<close>

definition parse ::
  "url_ctor \<Rightarrow> fetcher \<Rightarrow> string \<Rightarrow> ParseOptions \<Rightarrow> (error + ParsedGitUrl) \<times> event list" where
  "parse U fetch url0 options =
     (if \<not> gitUrlSchema U url0 then (Inl InvalidFormat, [])
      else
        let url = expand url0 in
        case U url of
          None \<Rightarrow> (Inl UrlTypeError, [])
        | Some urlObj \<Rightarrow>
            let prov = detect_provider (hostname urlObj);
                br = match_branch url;
                cm = match_commit url
            in (case pathSegments urlObj of
                  [] \<Rightarrow> (Inl MissingOwnerOrRepo, [])
                | [own] \<Rightarrow> (Inl MissingOwnerOrRepo, [])
                | own # rp # _ \<Rightarrow>
                    let cleanRepo = strip_git rp in
                    if own = [] \<or> cleanRepo = [] then (Inl MissingOwnerOrRepo, [])
                    else
                      let normalized = ''https://'' @ hostname urlObj @ ''/'' @ own @ ''/'' @ cleanRepo;
                          (priv, evs) =
                            (if prov = github then lookup_visibility fetch options own cleanRepo
                             else (JBool False, []))
                      in (Inr \<lparr> metadata = \<lparr> owner = own, repo = cleanRepo, branch = br,
                                   commit = cm, provider = prov, isPrivate = priv \<rparr>,
                                 normalizedUrl = normalized, originalUrl = url \<rparr>, evs)))"

text \<open>
  The result of \<^verbatim>\<open>parse\<close> when the lookup is set aside: everything but \<^verbatim>\<open>isPrivate\<close>.
\<close>

definition parsed ::
  "URL \<Rightarrow> string \<Rightarrow> string \<Rightarrow> string \<Rightarrow> jsval \<Rightarrow> ParsedGitUrl" where
  "parsed urlObj url own cleanRepo priv =
     \<lparr> metadata = \<lparr> owner = own, repo = cleanRepo, branch = match_branch url,
                    commit = match_commit url, provider = detect_provider (hostname urlObj),
                    isPrivate = priv \<rparr>,
       normalizedUrl = ''https://'' @ hostname urlObj @ ''/'' @ own @ ''/'' @ cleanRepo,
       originalUrl = url \<rparr>"

text \<open>\<^verbatim>\<open>GitRepoParser.validate\<close>, lines 158 to 160: \<^verbatim>\<open>safeParse\<close> returns, it does not throw.\<close>

datatype safe_parse = SafeSuccess string | SafeFailure string

definition validate :: "url_ctor \<Rightarrow> string \<Rightarrow> safe_parse" where
  "validate U url =
     (if gitUrlSchema U url then SafeSuccess url
      else SafeFailure ''Invalid Git repository URL format'')"


text \<open>A lookup that always rejects, and a call without options, to run the model on.\<close>

definition offline :: fetcher where
  "offline req hdrs = None"

definition no_options :: ParseOptions where
  "no_options = \<lparr> authToken = None \<rparr>"

text \<open>A lookup that answers \<^verbatim>\<open>{private: true}\<close>, and a call with a token.\<close>

definition private_repo :: fetcher where
  "private_repo req hdrs =
     Some \<lparr> ok = True, status = 200, statusText = ''OK'', text_body = Some [],
            json_body = Some (JObject [(''private'', JBool True)]) \<rparr>"

definition with_token :: ParseOptions where
  "with_token = \<lparr> authToken = Some ''secret'' \<rparr>"

section \<open>Facts about the string functions\<close>

lemma js_includes_sublist: "js_includes s t \<longleftrightarrow> sublist t s"
  by (induction s) (auto simp: sublist_Cons_right)

lemma split_on_not_Nil [simp]: "split_on d s \<noteq> []"
  by (induction s) (auto split: list.splits)



lemma pathSegments_nonempty: "seg \<in> set (pathSegments u) \<Longrightarrow> seg \<noteq> []"
  by (auto simp: pathSegments_def)

lemma pathSegments_Cons: "pathSegments u = own # rest \<Longrightarrow> own \<noteq> []"
  using pathSegments_nonempty [of own u] by auto


section \<open>The shape of a parse\<close>

text \<open>
  \<^verbatim>\<open>parse\<close> returns a result exactly when the schema accepts the input, the expanded URL
  constructs, and its path has two segments of which the second is not \<^verbatim>\<open>.git\<close> alone.
\<close>

lemma parse_Inr_iff:
  "fst (parse U fetch url opts) = Inr r \<longleftrightarrow>
     gitUrlSchema U url \<and>
     (\<exists>u own rp rest. U (expand url) = Some u \<and> pathSegments u = own # rp # rest \<and>
        strip_git rp \<noteq> [] \<and>
        r = parsed u (expand url) own (strip_git rp)
              (if detect_provider (hostname u) = github
               then fst (lookup_visibility fetch opts own (strip_git rp)) else JBool False))"
proof (cases "gitUrlSchema U url")
  case False
  then show ?thesis by (simp add: parse_def)
next
  case True
  show ?thesis
  proof (cases "U (expand url)")
    case None
    with True show ?thesis by (simp add: parse_def)
  next
    case (Some u)
    have ne: "\<And>seg. seg \<in> set (pathSegments u) \<Longrightarrow> seg \<noteq> []"
      by (rule pathSegments_nonempty)
    show ?thesis
    proof (cases "pathSegments u")
      case Nil
      with True Some show ?thesis by (simp add: parse_def)
    next
      case (Cons own tl1)
      note c1 = Cons
      show ?thesis
      proof (cases tl1)
        case Nil
        with True Some c1 show ?thesis by (simp add: parse_def)
      next
        case (Cons rp rest)
        from ne c1 have "own \<noteq> []" by auto
        with True Some c1 Cons show ?thesis
          by (auto simp: parse_def parsed_def Let_def split: prod.splits)
      qed
    qed
  qed
qed


lemma parse_MissingOwnerOrRepo_iff:
  "fst (parse U fetch url opts) = Inl MissingOwnerOrRepo \<longleftrightarrow>
     gitUrlSchema U url \<and>
     (\<exists>u. U (expand url) = Some u \<and>
        (case pathSegments u of own # rp # _ \<Rightarrow> strip_git rp = [] | _ \<Rightarrow> True))"
  by (auto simp: parse_def Let_def split: if_splits option.splits list.splits prod.splits
           dest: pathSegments_Cons)

lemma parse_InvalidFormat_iff:
  "fst (parse U fetch url opts) = Inl InvalidFormat \<longleftrightarrow> \<not> gitUrlSchema U url"
  by (auto simp: parse_def Let_def split: if_splits option.splits list.splits prod.splits)

lemma detect_provider_cascade:
  "detect_provider h =
     (if js_includes h ''github.com'' then github
      else if js_includes h ''gitlab.com'' then gitlab
      else if js_includes h ''bitbucket.org'' then bitbucket
      else github)"
  by (simp add: detect_provider_def PROVIDER_PATTERNS_def)



section \<open>Occurrences of a path segment in the normalised URL\<close>

lemma split_on_append: "split_on d (a @ d # b) = split_on d a @ split_on d b"
  by (induction a) (auto split: list.splits)

lemma split_on_plain: "d \<notin> set w \<Longrightarrow> split_on d w = [w]"
  by (induction w) auto



section \<open>The commit pattern\<close>

lemma prefix_same_length: "prefix xs ys \<Longrightarrow> length ys \<le> length xs \<Longrightarrow> xs = ys"
  by (auto simp: prefix_def)

lemma match_commit_Some:
  "match_commit s = Some c \<Longrightarrow>
     c \<noteq> [] \<and> list_all is_hex c \<and>
     (\<exists>pre sl post. s = pre @ sl @ c @ post \<and> map to_lower sl = ''/commit/'')"
proof (induction s)
  case Nil
  then show ?case by simp
next
  case (Cons a s)
  let ?t = "takeWhile is_hex (drop 8 (a # s))"
  show ?case
  proof (cases "prefix ''/commit/'' (map to_lower (take 8 (a # s))) \<and> ?t \<noteq> []")
    case True
    then have "match_commit (a # s) = Some ?t"
      by (simp only: match_commit.simps simp_thms if_True)
    with Cons.prems have c: "c = ?t" by (simp only: option.inject)
    from True have p: "prefix ''/commit/'' (map to_lower (take 8 (a # s)))" by (rule conjunct1)
    have "length (map to_lower (take 8 (a # s))) \<le> length ''/commit/''" by simp
    with p have "''/commit/'' = map to_lower (take 8 (a # s))" by (rule prefix_same_length)
    then have e1: "map to_lower (take 8 (a # s)) = ''/commit/''" by (rule sym)
    have "take 8 (a # s) @ ?t @ dropWhile is_hex (drop 8 (a # s)) = a # s"
      by (simp only: takeWhile_dropWhile_id append_take_drop_id)
    then have e2: "a # s = [] @ take 8 (a # s) @ c @ dropWhile is_hex (drop 8 (a # s))"
      unfolding c by (simp only: append_Nil)
    have e3: "list_all is_hex c" unfolding c list_all_iff by (blast dest: set_takeWhileD)
    from True have e4: "c \<noteq> []" unfolding c by (rule conjunct2)
    have "\<exists>pre sl post. a # s = pre @ sl @ c @ post \<and> map to_lower sl = ''/commit/''"
      by (intro exI conjI) (rule e2, rule e1)
    with e3 e4 show ?thesis by (intro conjI)
  next
    case False
    then have "match_commit (a # s) = match_commit s"
      by (simp only: match_commit.simps if_False)
    with Cons.prems have "match_commit s = Some c" by (simp only:)
    from Cons.IH [OF this] obtain pre sl post where
      i: "s = pre @ sl @ c @ post" "map to_lower sl = ''/commit/''" "c \<noteq> []" "list_all is_hex c"
      by (elim conjE exE)
    from i(1) have "a # s = (a # pre) @ sl @ c @ post" by (simp only: append_Cons)
    with i(2) have "\<exists>pre sl post. a # s = pre @ sl @ c @ post \<and> map to_lower sl = ''/commit/''"
      by (intro exI conjI)
    with i(3,4) show ?thesis by (intro conjI)
  qed
qed

lemma match_commit_None:
  "match_commit s = None \<Longrightarrow> s = pre @ sl @ h # post \<Longrightarrow> map to_lower sl = ''/commit/'' \<Longrightarrow>
     \<not> is_hex h"
proof (induction s arbitrary: pre)
  case Nil
  then show ?case by simp
next
  case (Cons a s)
  have "length (map to_lower sl) = length ''/commit/''" by (simp only: Cons.prems(3))
  then have len: "length sl = 8" by simp
  show ?case
  proof (cases pre)
    case Nil
    with Cons.prems(2) len have tk: "take 8 (a # s) = sl" and dr: "drop 8 (a # s) = h # post"
      by simp_all
    show ?thesis
    proof
      assume "is_hex h"
      then have "takeWhile is_hex (drop 8 (a # s)) \<noteq> []" unfolding dr by simp
      moreover have "prefix ''/commit/'' (map to_lower (take 8 (a # s)))"
        unfolding tk Cons.prems(3) by simp
      ultimately have "match_commit (a # s) = Some (takeWhile is_hex (drop 8 (a # s)))"
        by (simp only: match_commit.simps simp_thms if_True)
      then show False using Cons.prems(1) by simp
    qed
  next
    case (Cons p pre')
    with Cons.prems(2) have s: "s = pre' @ sl @ h # post" by simp
    have "match_commit s = None"
    proof (cases "prefix ''/commit/'' (map to_lower (take 8 (a # s)))
         \<and> takeWhile is_hex (drop 8 (a # s)) \<noteq> []")
      case True
      then have "match_commit (a # s) = Some (takeWhile is_hex (drop 8 (a # s)))"
        by (simp only: match_commit.simps simp_thms if_True)
      then show ?thesis using Cons.prems(1) by simp
    next
      case False
      then have "match_commit (a # s) = match_commit s"
        by (simp only: match_commit.simps if_False)
      then show ?thesis using Cons.prems(1) by simp
    qed
    from Cons.IH [OF this s Cons.prems(3)] show ?thesis .
  qed
qed

section \<open>Facts about the URL constructor\<close>

text \<open>The characters of the shorthand pattern are plain for the URL parser.\<close>

lemma wdh_code:
  "is_word_dot_hyphen c \<longleftrightarrow>
     (48 \<le> code c \<and> code c \<le> 57) \<or> (65 \<le> code c \<and> code c \<le> 90) \<or>
     (97 \<le> code c \<and> code c \<le> 122) \<or> code c = 95 \<or> code c = 46 \<or> code c = 45"
  by (auto simp: is_word_dot_hyphen_def is_word_def is_alpha_def is_upper_def is_lower_def
      is_digit_def)

lemma wh_wdh: "is_word_hyphen c \<Longrightarrow> is_word_dot_hyphen c"
  by (auto simp: is_word_hyphen_def is_word_dot_hyphen_def)

lemma wdh_not_delim:
  assumes "is_word_dot_hyphen c"
  shows "c \<noteq> CHR ''/''" "c \<noteq> CHR 0x5C" "c \<noteq> CHR ''?''" "c \<noteq> CHR ''#''" "c \<noteq> CHR '':''"
    "c \<noteq> CHR ''%''" "c \<noteq> CHR ''@''"
  using assms by (auto simp: wdh_code code_def)

lemma wdh_pct_path: "is_word_dot_hyphen c \<Longrightarrow> pct_path c = [c]"
  by (auto simp: wdh_code pct_path_def in_path_set_def in_query_set_def in_c0_set_def)

lemma wdh_not_space: "is_word_dot_hyphen c \<Longrightarrow> \<not> c0_or_space c \<and> \<not> tab_or_newline c"
  by (auto simp: wdh_code c0_or_space_def tab_or_newline_def)

lemma to_lower_eq:
  assumes "\<not> is_lower x" "\<not> is_upper x"
  shows "to_lower c = x \<longleftrightarrow> c = x"
proof (cases "is_upper c")
  case True
  then have "code c + 32 < 256" by (simp add: is_upper_def)
  then have "code (char_of (code c + 32) :: char) = code c + 32" by (simp add: code_def)
  with True have "is_lower (to_lower c)" by (simp add: to_lower_def is_lower_def is_upper_def)
  moreover from True have "\<not> is_lower c" by (simp add: is_lower_def is_upper_def)
  ultimately show ?thesis using assms True by auto
next
  case False
  then show ?thesis using assms by (auto simp: to_lower_def)
qed

lemma to_lower_dot [simp]: "to_lower c = CHR ''.'' \<longleftrightarrow> c = CHR ''.''"
  by (rule to_lower_eq) (simp_all add: is_lower_def is_upper_def code_def)

lemma to_lower_percent [simp]: "to_lower c = CHR ''%'' \<longleftrightarrow> c = CHR ''%''"
  by (rule to_lower_eq) (simp_all add: is_lower_def is_upper_def code_def)

lemma plain_not_dots:
  assumes "CHR ''.'' \<notin> set a" "CHR ''%'' \<notin> set a" "a \<noteq> []"
  shows "\<not> is_double_dot a" "\<not> is_single_dot a"
proof -
  from assms obtain c cs where a: "a = c # cs" by (cases a) auto
  with assms have "to_lower c \<noteq> CHR ''.''" "to_lower c \<noteq> CHR ''%''" by auto
  then show "\<not> is_double_dot a" "\<not> is_single_dot a"
    unfolding a by (auto simp: is_double_dot_def is_single_dot_def)
qed

lemma no_percent_dots:
  assumes "CHR ''%'' \<notin> set b"
  shows "is_double_dot b \<longleftrightarrow> b = ''..''" "is_single_dot b \<longleftrightarrow> b = ''.''"
  using assms by (auto simp: is_double_dot_def is_single_dot_def)

lemma dropWhile_none: "\<forall>x\<in>set xs. \<not> P x \<Longrightarrow> dropWhile P xs = xs"
  by (cases xs) auto

lemma preprocess_id:
  assumes "\<forall>c\<in>set t. \<not> c0_or_space c \<and> \<not> tab_or_newline c"
  shows "preprocess t = t"
proof -
  from assms have "dropWhile c0_or_space t = t" by (intro dropWhile_none) auto
  moreover from assms have "dropWhile c0_or_space (rev t) = rev t" by (intro dropWhile_none) auto
  moreover from assms have "filter (\<lambda>c. \<not> tab_or_newline c) t = t" by (intro filter_True) auto
  ultimately show ?thesis by (simp add: preprocess_def)
qed




lemma path_state_plain:
  "list_all is_word_dot_hyphen xs \<Longrightarrow>
     path_state sp fl buf path (xs @ rest) = path_state sp fl (buf @ xs) path rest"
  by (induction xs arbitrary: buf) (auto simp: wdh_pct_path dest: wdh_not_delim)

lemma host_github: "host_parse ext False ''github.com'' = Some ''github.com''"
  by code_simp


text \<open>
  After a special scheme the slashes are optional: an input can lack \<^verbatim>\<open>://\<close> and still be
  an absolute URL with a host.
\<close>

lemma scheme_without_slashes:
  "URL_new ascii_only ''https:github.com/a/b'' =
     Some \<lparr> hostname = ''github.com'', pathname = ''/a/b'' \<rparr>"
  by code_simp

lemma authority_github:
  "authority_state ext True (''github.com/'' @ t) = Some (''github.com'', ''/'' @ t)"
  by (simp add: authority_state_def authority_end_def host_github Let_def)

lemma split_scheme_https:
  "split_scheme (''https://github.com/'' @ t) = Some (''https'', ''//github.com/'' @ t)"
  by (simp add: split_scheme_def is_scheme_char_def is_alpha_def is_upper_def is_lower_def
      is_digit_def code_def to_lower_def)

lemma URL_new_github_path:
  assumes "\<forall>c\<in>set t. \<not> c0_or_space c \<and> \<not> tab_or_newline c"
  shows "URL_new ext (''https://github.com/'' @ t) =
     Some \<lparr> hostname = ''github.com'',
            pathname = serialize_path (path_state True False [] [] t) \<rparr>"
proof -
  have "\<forall>c\<in>set (''https://github.com/'' @ t). \<not> c0_or_space c \<and> \<not> tab_or_newline c"
    using assms by (auto simp: c0_or_space_def tab_or_newline_def code_def)
  then have pre: "preprocess (''https://github.com/'' @ t) = ''https://github.com/'' @ t"
    by (rule preprocess_id)
  show ?thesis
    by (simp add: URL_new_def pre [simplified] split_scheme_https [simplified]
        authority_github [simplified] special_schemes_def path_start_def)
qed

lemma URL_new_github:
  assumes a: "list_all is_word_hyphen a" "a \<noteq> []" and b: "list_all is_word_dot_hyphen b" "b \<noteq> []"
  shows "URL_new ext (''https://github.com/'' @ a @ ''/'' @ b) =
     Some \<lparr> hostname = ''github.com'',
            pathname = (if b = ''..'' then ''/''
                        else if b = ''.'' then ''/'' @ a @ ''/''
                        else ''/'' @ a @ ''/'' @ b) \<rparr>"
proof -
  from a(1) have a': "list_all is_word_dot_hyphen a" by (auto simp: list_all_iff dest: wh_wdh)
  have na: "CHR ''.'' \<notin> set a" "CHR ''%'' \<notin> set a"
    using a(1) by (auto simp: list_all_iff is_word_hyphen_def wdh_code is_word_def is_alpha_def
        is_upper_def is_lower_def is_digit_def code_def)
  have nb: "CHR ''%'' \<notin> set b" using b(1) wdh_not_delim(6) by (auto simp: list_all_iff)
  have sp: "\<forall>c\<in>set (a @ ''/'' @ b). \<not> c0_or_space c \<and> \<not> tab_or_newline c"
    using a' b(1) wdh_not_space
    by (auto simp: list_all_iff c0_or_space_def tab_or_newline_def code_def)
  have "path_state True False [] [] (a @ ''/'' @ b) = path_state True False a [] (''/'' @ b)"
    using path_state_plain [OF a', of True False "[]" "[]" "''/'' @ b"] by simp
  also have "\<dots> = path_state True False [] [a] (b @ [])"
    using plain_not_dots [OF na a(2)] by (simp add: segment_end_def)
  also have "\<dots> = path_state True False b [a] []"
    using path_state_plain [OF b(1), of True False "[]" "[a]" "[]"] by simp
  also have "\<dots> = (if b = ''..'' then [[]] else if b = ''.'' then [a, []] else [a, b])"
    using no_percent_dots [OF nb] by (simp add: segment_end_def shorten_def)
  finally have "serialize_path (path_state True False [] [] (a @ ''/'' @ b)) =
    (if b = ''..'' then ''/'' else if b = ''.'' then ''/'' @ a @ ''/'' else ''/'' @ a @ ''/'' @ b)"
    by (simp add: serialize_path_def)
  with URL_new_github_path [OF sp, of ext] show ?thesis by simp
qed

section \<open>Shorthand inputs\<close>

lemma not_wh_slash: "\<not> is_word_hyphen (CHR ''/'')"
  by (simp add: is_word_hyphen_def is_word_def is_alpha_def is_upper_def is_lower_def
      is_digit_def code_def)

lemma shorthand_re_iff:
  "shorthand_re s \<longleftrightarrow>
     (\<exists>a b. s = a @ ''/'' @ b \<and> a \<noteq> [] \<and> list_all is_word_hyphen a \<and>
        b \<noteq> [] \<and> list_all is_word_dot_hyphen b)"
proof
  assume h: "shorthand_re s"
  let ?a = "takeWhile is_word_hyphen s"
  from h obtain b where d: "dropWhile is_word_hyphen s = CHR ''/'' # b" and
    b: "b \<noteq> []" "list_all is_word_dot_hyphen b" and a: "?a \<noteq> []"
    by (auto simp: shorthand_re_def Let_def split: list.splits)
  have "s = ?a @ dropWhile is_word_hyphen s" by simp
  with d have "s = ?a @ ''/'' @ b" by simp
  moreover have "list_all is_word_hyphen ?a" by (auto simp: list_all_iff dest: set_takeWhileD)
  ultimately show "\<exists>a b. s = a @ ''/'' @ b \<and> a \<noteq> [] \<and> list_all is_word_hyphen a \<and>
        b \<noteq> [] \<and> list_all is_word_dot_hyphen b"
    using a b by blast
next
  assume "\<exists>a b. s = a @ ''/'' @ b \<and> a \<noteq> [] \<and> list_all is_word_hyphen a \<and>
        b \<noteq> [] \<and> list_all is_word_dot_hyphen b"
  then obtain a b where s: "s = a @ ''/'' @ b" and a: "a \<noteq> []" "list_all is_word_hyphen a"
    and b: "b \<noteq> []" "list_all is_word_dot_hyphen b" by blast
  have t: "takeWhile is_word_hyphen s = a" and d: "dropWhile is_word_hyphen s = CHR ''/'' # b"
    unfolding s using a(2) not_wh_slash
    by (simp_all add: list_all_iff takeWhile_append2 dropWhile_append2 takeWhile_tail)
  show "shorthand_re s" using a b by (simp add: shorthand_re_def t d)
qed

lemma shorthand_parts:
  assumes "shorthand_re s"
  defines "a \<equiv> takeWhile is_word_hyphen s" and "b \<equiv> tl (dropWhile is_word_hyphen s)"
  shows "s = a @ ''/'' @ b" "a \<noteq> []" "list_all is_word_hyphen a" "b \<noteq> []"
    "list_all is_word_dot_hyphen b"
proof -
  from assms(1) obtain b' where d: "dropWhile is_word_hyphen s = CHR ''/'' # b'" and
    b': "b' \<noteq> []" "list_all is_word_dot_hyphen b'" and a': "a \<noteq> []"
    by (auto simp: shorthand_re_def Let_def a_def split: list.splits)
  from d have bb: "b = b'" by (simp add: b_def)
  have "s = a @ dropWhile is_word_hyphen s" by (simp add: a_def)
  with d bb show "s = a @ ''/'' @ b" by simp
  show "a \<noteq> []" by fact
  show "list_all is_word_hyphen a" by (auto simp: a_def list_all_iff dest: set_takeWhileD)
  show "b \<noteq> []" "list_all is_word_dot_hyphen b" using b' bb by simp_all
qed

lemma shorthand_no_colon: "shorthand_re s \<Longrightarrow> CHR '':'' \<notin> set s"
proof -
  assume "shorthand_re s"
  then obtain a b where s: "s = a @ ''/'' @ b" and a: "list_all is_word_hyphen a"
    and b: "list_all is_word_dot_hyphen b" unfolding shorthand_re_iff by blast
  from a have "CHR '':'' \<notin> set a" using wdh_not_delim(5) wh_wdh by (auto simp: list_all_iff)
  moreover from b have "CHR '':'' \<notin> set b" using wdh_not_delim(5) by (auto simp: list_all_iff)
  ultimately show ?thesis unfolding s by simp
qed

lemma js_includes_set: "js_includes s t \<Longrightarrow> set t \<subseteq> set s"
  by (auto simp: js_includes_sublist dest: set_mono_sublist)

lemma no_colon_no_scheme_sep: "CHR '':'' \<notin> set s \<Longrightarrow> \<not> js_includes s ''://''"
  using js_includes_set [of s "''://''"] by auto

lemma parse_Missing:
  assumes "gitUrlSchema U url" "U (expand url) = Some u"
    "case pathSegments u of own # rp # _ \<Rightarrow> strip_git rp = [] | _ \<Rightarrow> True"
  shows "parse U fetch url opts = (Inl MissingOwnerOrRepo, [])"
  using assms by (auto simp: parse_def Let_def split: list.splits)

lemma strip_git_empty_iff: "strip_git b = [] \<longleftrightarrow> b = [] \<or> b = ''.git''"
proof -
  have "b = ''.git''" if "suffix ''.git'' b" "length b \<le> 4"
  proof -
    from that(1) obtain p where "b = p @ ''.git''" by (auto simp: suffix_def)
    with that(2) show ?thesis by simp
  qed
  then show ?thesis by (auto simp: strip_git_def)
qed

lemma pathSegments_two:
  assumes "CHR ''/'' \<notin> set a" "a \<noteq> []" "CHR ''/'' \<notin> set b" "b \<noteq> []"
  shows "pathSegments \<lparr> hostname = h, pathname = ''/'' @ a @ ''/'' @ b \<rparr> = [a, b]"
proof -
  have "split_on (CHR ''/'') ([] @ CHR ''/'' # a @ CHR ''/'' # b) = [[], a, b]"
    unfolding split_on_append using assms by (simp add: split_on_plain)
  with assms show ?thesis by (simp add: pathSegments_def)
qed

lemma pathSegments_one:
  assumes "CHR ''/'' \<notin> set a"
  shows "pathSegments \<lparr> hostname = h, pathname = ''/'' @ a @ ''/'' \<rparr> = filter (\<lambda>s. s \<noteq> []) [a]"
proof -
  have "split_on (CHR ''/'') ([] @ CHR ''/'' # a @ CHR ''/'' # []) = [[], a, []]"
    unfolding split_on_append using assms by (simp add: split_on_plain)
  then show ?thesis by (simp add: pathSegments_def)
qed

lemma wdh_no_slash: "list_all is_word_dot_hyphen b \<Longrightarrow> CHR ''/'' \<notin> set b"
  using wdh_not_delim(1) by (auto simp: list_all_iff)

lemma expand_shorthand:
  "shorthand_re s \<Longrightarrow> expand s = ''https://github.com/'' @ s"
  by (simp add: expand_def no_colon_no_scheme_sep shorthand_no_colon)

lemma gitUrlSchema_shorthand: "shorthand_re s \<Longrightarrow> gitUrlSchema U s"
  by (simp add: gitUrlSchema_def no_colon_no_scheme_sep shorthand_no_colon)

lemma detect_github: "detect_provider ''github.com'' = github"
  by code_simp

text \<open>
  A shorthand input expands to a github URL whose path is the input. The parser then
  finds owner and repo, unless the second segment is a dot segment or \<^verbatim>\<open>.git\<close> alone.
\<close>

lemma parse_shorthand:
  assumes sh: "shorthand_re url"
  defines "a \<equiv> takeWhile is_word_hyphen url" and "b \<equiv> tl (dropWhile is_word_hyphen url)"
  shows "b \<in> {''.'', ''..'', ''.git''} \<Longrightarrow>
           parse (URL_new ext) fetch url opts = (Inl MissingOwnerOrRepo, [])"
    and "b \<notin> {''.'', ''..'', ''.git''} \<Longrightarrow>
           fst (parse (URL_new ext) fetch url opts) =
             Inr (parsed \<lparr> hostname = ''github.com'', pathname = ''/'' @ a @ ''/'' @ b \<rparr>
                    (''https://github.com/'' @ a @ ''/'' @ b) a (strip_git b)
                    (fst (lookup_visibility fetch opts a (strip_git b))))"
proof -
  note p = shorthand_parts [OF sh, folded a_def b_def]
  have g: "gitUrlSchema (URL_new ext) url" using sh by (rule gitUrlSchema_shorthand)
  have e: "expand url = ''https://github.com/'' @ a @ ''/'' @ b"
    using expand_shorthand [OF sh] p(1) by simp
  have na: "CHR ''/'' \<notin> set a" using p(3) wh_wdh wdh_not_delim(1) by (auto simp: list_all_iff)
  have nb: "CHR ''/'' \<notin> set b" using p(5) by (rule wdh_no_slash)
  let ?u = "\<lambda>path. \<lparr> hostname = ''github.com'', pathname = path \<rparr>"
  have u: "URL_new ext (expand url) =
     Some (?u (if b = ''..'' then ''/''
               else if b = ''.'' then ''/'' @ a @ ''/''
               else ''/'' @ a @ ''/'' @ b))"
    unfolding e using p by (intro URL_new_github)
  show "parse (URL_new ext) fetch url opts = (Inl MissingOwnerOrRepo, [])"
    if hb: "b \<in> {''.'', ''..'', ''.git''}"
  proof -
    consider "b = ''..''" | "b = ''.''" | "b = ''.git''" using hb by auto
    then show ?thesis
    proof cases
      case 1
      with u have u1: "URL_new ext (expand url) = Some (?u ''/'')" by simp
      have "pathSegments (?u ''/'') = []" by (simp add: pathSegments_def)
      then show ?thesis using parse_Missing [OF g u1] by simp
    next
      case 2
      with u have u2: "URL_new ext (expand url) = Some (?u (''/'' @ a @ ''/''))" by simp
      have "pathSegments (?u (''/'' @ a @ ''/'')) = [a]"
        using pathSegments_one [OF na] p(2) by simp
      then show ?thesis using parse_Missing [OF g u2] by simp
    next
      case 3
      with u have u3: "URL_new ext (expand url) = Some (?u (''/'' @ a @ ''/'' @ b))" by simp
      have "pathSegments (?u (''/'' @ a @ ''/'' @ b)) = [a, b]"
        using pathSegments_two [OF na p(2) nb p(4)] .
      moreover have "strip_git b = []" using 3 by (simp add: strip_git_empty_iff)
      ultimately show ?thesis using parse_Missing [OF g u3] by simp
    qed
  qed
  show "fst (parse (URL_new ext) fetch url opts) =
             Inr (parsed (?u (''/'' @ a @ ''/'' @ b))
                    (''https://github.com/'' @ a @ ''/'' @ b) a (strip_git b)
                    (fst (lookup_visibility fetch opts a (strip_git b))))"
    if "b \<notin> {''.'', ''..'', ''.git''}"
  proof -
    from that u have u3: "URL_new ext (expand url) = Some (?u (''/'' @ a @ ''/'' @ b))" by simp
    have ps: "pathSegments (?u (''/'' @ a @ ''/'' @ b)) = a # b # []"
      using pathSegments_two [OF na p(2) nb p(4)] .
    have ne: "strip_git b \<noteq> []" using that p(4) by (simp add: strip_git_empty_iff)
    show ?thesis
      unfolding parse_Inr_iff e [symmetric] using g u3 ps ne
      by (auto simp: detect_github)
  qed
qed

text \<open>
  With this constructor the call of line 91 cannot throw: an input with \<^verbatim>\<open>://\<close> was
  constructed once by the schema, and an expanded shorthand is a plain github URL.
\<close>

lemma parse_never_UrlTypeError:
  "fst (parse (URL_new ext) fetch url opts) \<noteq> Inl UrlTypeError"
proof (cases "gitUrlSchema (URL_new ext) url")
  case False
  then show ?thesis by (simp add: parse_def)
next
  case True
  have "\<exists>u. URL_new ext (expand url) = Some u"
  proof (cases "js_includes url ''://''")
    case i: True
    with True show ?thesis by (auto simp: gitUrlSchema_def expand_def split: option.splits)
  next
    case i: False
    with True have sh: "shorthand_re url" by (simp add: gitUrlSchema_def)
    note p = shorthand_parts [OF sh]
    have "expand url = ''https://github.com/'' @
        takeWhile is_word_hyphen url @ ''/'' @ tl (dropWhile is_word_hyphen url)"
      using expand_shorthand [OF sh] p(1) by simp
    then show ?thesis using URL_new_github [OF p(3,2,5,4), of ext] by simp
  qed
  then obtain u where "URL_new ext (expand url) = Some u" ..
  with True show ?thesis
    by (auto simp: parse_def Let_def split: list.splits prod.splits)
qed



section \<open>Claims that hold for every URL constructor\<close>




text \<open>
  C4 (amended). For every input on which \<^verbatim>\<open>parse\<close> succeeds, a commit that is present is a
  non-empty string of hexadecimal digits of either case, copied from the expanded URL
  where it follows \<^verbatim>\<open>/commit/\<close>, itself matched in either case; and the commit is
  absent only when the expanded URL has no \<^verbatim>\<open>/commit/\<close> followed by a hexadecimal digit.
\<close>

theorem commit_is_hexadecimal:
  assumes "fst (parse U fetch url opts) = Inr r"
  shows "(\<forall>c. commit (metadata r) = Some c \<longrightarrow>
            c \<noteq> [] \<and> list_all is_hex c \<and>
            (\<exists>pre sl post. expand url = pre @ sl @ c @ post \<and> map to_lower sl = ''/commit/'')) \<and>
         (commit (metadata r) = None \<longrightarrow>
            \<not> (\<exists>pre sl h post. expand url = pre @ sl @ h # post \<and>
                  map to_lower sl = ''/commit/'' \<and> is_hex h))"
proof -
  from assms have c: "commit (metadata r) = match_commit (expand url)"
    unfolding parse_Inr_iff by (auto simp: parsed_def)
  have a: "c' \<noteq> [] \<and> list_all is_hex c' \<and>
      (\<exists>pre sl post. expand url = pre @ sl @ c' @ post \<and> map to_lower sl = ''/commit/'')"
    if "commit (metadata r) = Some c'" for c'
    using that unfolding c by (rule match_commit_Some)
  have b: "\<not> (\<exists>pre sl h post. expand url = pre @ sl @ h # post \<and>
      map to_lower sl = ''/commit/'' \<and> is_hex h)"
    if n: "commit (metadata r) = None"
  proof
    assume "\<exists>pre sl h post. expand url = pre @ sl @ h # post \<and>
      map to_lower sl = ''/commit/'' \<and> is_hex h"
    then obtain pre sl h post where e: "expand url = pre @ sl @ h # post"
      "map to_lower sl = ''/commit/''" "is_hex h"
      by (elim exE conjE)
    from n have "match_commit (expand url) = None" unfolding c .
    from match_commit_None [OF this e(1,2)] e(3) show False by (rule notE)
  qed
  show ?thesis
  proof (rule conjI)
    show "\<forall>c. commit (metadata r) = Some c \<longrightarrow>
            c \<noteq> [] \<and> list_all is_hex c \<and>
            (\<exists>pre sl post. expand url = pre @ sl @ c @ post \<and> map to_lower sl = ''/commit/'')"
    proof (rule allI, rule impI)
      fix c' assume "commit (metadata r) = Some c'"
      then show "c' \<noteq> [] \<and> list_all is_hex c' \<and>
        (\<exists>pre sl post. expand url = pre @ sl @ c' @ post \<and> map to_lower sl = ''/commit/'')"
        by (rule a)
    qed
    show "commit (metadata r) = None \<longrightarrow>
            \<not> (\<exists>pre sl h post. expand url = pre @ sl @ h # post \<and>
                  map to_lower sl = ''/commit/'' \<and> is_hex h)"
      by (rule impI) (rule b)
  qed
qed

theorem commit_is_hexadecimal_witness:
  "fst (parse (URL_new ascii_only) offline ''https://github.com/user/repo/Commit/0aF3'' no_options) =
     Inr \<lparr> metadata = \<lparr> owner = ''user'', repo = ''repo'', branch = None, commit = Some ''0aF3'',
                  provider = github, isPrivate = JBool False \<rparr>,
           normalizedUrl = ''https://github.com/user/repo'',
           originalUrl = ''https://github.com/user/repo/Commit/0aF3'' \<rparr> \<and>
   ''0aF3'' \<noteq> [] \<and> list_all is_hex ''0aF3'' \<and>
   (\<exists>pre sl post. expand ''https://github.com/user/repo/Commit/0aF3'' = pre @ sl @ ''0aF3'' @ post \<and>
      map to_lower sl = ''/commit/'') \<and>
   fst (parse (URL_new ascii_only) offline ''https://gitlab.com/user/repo/commit/xyz'' no_options) =
     Inr \<lparr> metadata = \<lparr> owner = ''user'', repo = ''repo'', branch = None, commit = None,
                  provider = gitlab, isPrivate = JBool False \<rparr>,
           normalizedUrl = ''https://gitlab.com/user/repo'',
           originalUrl = ''https://gitlab.com/user/repo/commit/xyz'' \<rparr> \<and>
   \<not> (\<exists>pre sl h post. expand ''https://gitlab.com/user/repo/commit/xyz'' = pre @ sl @ h # post \<and>
         map to_lower sl = ''/commit/'' \<and> is_hex h)"
proof -
  let ?r = "\<lparr> metadata = \<lparr> owner = ''user'', repo = ''repo'', branch = None, commit = Some ''0aF3'',
                  provider = github, isPrivate = JBool False \<rparr>,
           normalizedUrl = ''https://github.com/user/repo'',
           originalUrl = ''https://github.com/user/repo/Commit/0aF3'' \<rparr>"
  let ?r2 = "\<lparr> metadata = \<lparr> owner = ''user'', repo = ''repo'', branch = None, commit = None,
                  provider = gitlab, isPrivate = JBool False \<rparr>,
           normalizedUrl = ''https://gitlab.com/user/repo'',
           originalUrl = ''https://gitlab.com/user/repo/commit/xyz'' \<rparr>"
  have h: "fst (parse (URL_new ascii_only) offline ''https://github.com/user/repo/Commit/0aF3'' no_options)
    = Inr ?r"
    by code_simp
  have c: "commit (metadata ?r) = Some ''0aF3''" by simp
  note a = commit_is_hexadecimal [OF h, THEN conjunct1, rule_format, OF c]
  have h2: "fst (parse (URL_new ascii_only) offline ''https://gitlab.com/user/repo/commit/xyz''
    no_options) = Inr ?r2"
    by code_simp
  have c2: "commit (metadata ?r2) = None" by simp
  note b = commit_is_hexadecimal [OF h2, THEN conjunct2, rule_format, OF c2]
  from h a h2 b show ?thesis by (intro conjI) (elim conjE, assumption)+
qed

text \<open>
  C4 as stated fails: the pattern is case-insensitive and the capture is not
  lower-cased, so an upper-case commit is returned as it stands.
\<close>

theorem commit_not_lowercase_counterexample:
  "fst (parse (URL_new ascii_only) offline ''https://github.com/user/repo/commit/ABC123'' no_options) =
     Inr \<lparr> metadata = \<lparr> owner = ''user'', repo = ''repo'', branch = None, commit = Some ''ABC123'',
                  provider = github, isPrivate = JBool False \<rparr>,
           normalizedUrl = ''https://github.com/user/repo'',
           originalUrl = ''https://github.com/user/repo/commit/ABC123'' \<rparr> \<and>
   \<not> list_all is_lower_hex ''ABC123''"
  by code_simp



text \<open>
  C6. In every successful result owner and repo are non-empty. When the schema accepts
  the input and the path of the expanded URL does not give a non-empty owner and a
  non-empty repo (split at slashes, empty segments dropped, one trailing \<^verbatim>\<open>.git\<close> removed
  from the second), \<^verbatim>\<open>parse\<close> fails with MissingOwnerOrRepo, before any lookup.
\<close>

theorem owner_repo_present_or_failure:
  "(fst (parse U fetch url opts) = Inr r \<longrightarrow>
      owner (metadata r) \<noteq> [] \<and> repo (metadata r) \<noteq> []) \<and>
   (gitUrlSchema U url \<and> U (expand url) = Some u \<and>
    \<not> (\<exists>own rp rest. pathSegments u = own # rp # rest \<and> own \<noteq> [] \<and> strip_git rp \<noteq> [])
      \<longrightarrow> parse U fetch url opts = (Inl MissingOwnerOrRepo, []))"
proof -
  have a: "owner (metadata r) \<noteq> [] \<and> repo (metadata r) \<noteq> []"
    if "fst (parse U fetch url opts) = Inr r"
    using that unfolding parse_Inr_iff by (auto simp: parsed_def dest: pathSegments_Cons)
  have b: "parse U fetch url opts = (Inl MissingOwnerOrRepo, [])"
    if g: "gitUrlSchema U url" and u: "U (expand url) = Some u" and
       n: "\<not> (\<exists>own rp rest. pathSegments u = own # rp # rest \<and> own \<noteq> [] \<and> strip_git rp \<noteq> [])"
  proof -
    from n have c: "case pathSegments u of own # rp # _ \<Rightarrow> strip_git rp = [] | _ \<Rightarrow> True"
      by (auto split: list.splits dest: pathSegments_Cons)
    with g u have "fst (parse U fetch url opts) = Inl MissingOwnerOrRepo"
      unfolding parse_MissingOwnerOrRepo_iff by blast
    moreover have "snd (parse U fetch url opts) = []"
      using g u c by (auto simp: parse_def Let_def split: list.splits)
    ultimately show ?thesis
      by (cases "parse U fetch url opts") auto
  qed
  from a b show ?thesis by blast
qed

theorem owner_repo_present_or_failure_witness:
  "fst (parse (URL_new ascii_only) offline ''https://bitbucket.org/user/repo.git'' no_options) =
     Inr \<lparr> metadata = \<lparr> owner = ''user'', repo = ''repo'', branch = None, commit = None,
                  provider = bitbucket, isPrivate = JBool False \<rparr>,
           normalizedUrl = ''https://bitbucket.org/user/repo'',
           originalUrl = ''https://bitbucket.org/user/repo.git'' \<rparr> \<and>
   ''user'' \<noteq> [] \<and> ''repo'' \<noteq> [] \<and>
   gitUrlSchema (URL_new ascii_only) ''https://example.com/user'' \<and>
   URL_new ascii_only (expand ''https://example.com/user'') =
     Some \<lparr> hostname = ''example.com'', pathname = ''/user'' \<rparr> \<and>
   pathSegments \<lparr> hostname = ''example.com'', pathname = ''/user'' \<rparr> = [''user''] \<and>
   parse (URL_new ascii_only) offline ''https://example.com/user'' no_options =
     (Inl MissingOwnerOrRepo, [])"
proof -
  let ?r = "\<lparr> metadata = \<lparr> owner = ''user'', repo = ''repo'', branch = None, commit = None,
                  provider = bitbucket, isPrivate = JBool False \<rparr>,
           normalizedUrl = ''https://bitbucket.org/user/repo'',
           originalUrl = ''https://bitbucket.org/user/repo.git'' \<rparr>"
  let ?u = "\<lparr> hostname = ''example.com'', pathname = ''/user'' \<rparr>"
  have h: "fst (parse (URL_new ascii_only) offline ''https://bitbucket.org/user/repo.git'' no_options)
    = Inr ?r"
    by code_simp
  from owner_repo_present_or_failure [of "URL_new ascii_only" offline
      "''https://bitbucket.org/user/repo.git''" no_options ?r, THEN conjunct1, rule_format, OF h]
  have a: "''user'' \<noteq> [] \<and> ''repo'' \<noteq> []" by simp
  have g: "gitUrlSchema (URL_new ascii_only) ''https://example.com/user''" by code_simp
  have u: "URL_new ascii_only (expand ''https://example.com/user'') = Some ?u" by code_simp
  have s: "pathSegments ?u = [''user'']" by code_simp
  then have n: "\<not> (\<exists>own rp rest. pathSegments ?u = own # rp # rest \<and> own \<noteq> [] \<and> strip_git rp \<noteq> [])"
    by simp
  from owner_repo_present_or_failure [of "URL_new ascii_only" offline
      "''https://example.com/user''" no_options _ ?u, THEN conjunct2, rule_format, OF conjI [OF g conjI [OF u n]]]
  have m: "parse (URL_new ascii_only) offline ''https://example.com/user'' no_options =
     (Inl MissingOwnerOrRepo, [])" .
  from h a g u s m show ?thesis by (intro conjI) (elim conjE, assumption)+
qed

text \<open>
  C7. \<^verbatim>\<open>validate\<close> reports success exactly when \<^verbatim>\<open>parse\<close> does not fail with
  InvalidFormat, and failure exactly when it does, whatever the lookup and the options
  of that \<^verbatim>\<open>parse\<close>. \<^verbatim>\<open>validate\<close> is a function of the input and the URL constructor
  alone: it takes no lookup, reads no path, and always returns one of the two results.
\<close>

theorem validate_is_format_step:
  "(validate U url = SafeSuccess url \<longleftrightarrow> fst (parse U fetch url opts) \<noteq> Inl InvalidFormat) \<and>
   (validate U url = SafeFailure ''Invalid Git repository URL format''
      \<longleftrightarrow> fst (parse U fetch url opts) = Inl InvalidFormat) \<and>
   (validate U url = SafeSuccess url \<or>
    validate U url = SafeFailure ''Invalid Git repository URL format'')"
proof -
  have v: "validate U url = SafeSuccess url \<longleftrightarrow> gitUrlSchema U url"
    "validate U url = SafeFailure ''Invalid Git repository URL format'' \<longleftrightarrow> \<not> gitUrlSchema U url"
    by (simp_all add: validate_def)
  have p: "fst (parse U fetch url opts) = Inl InvalidFormat \<longleftrightarrow> \<not> gitUrlSchema U url"
    by (rule parse_InvalidFormat_iff)
  from v p show ?thesis by blast
qed

text \<open>
  C8. The provider of a successful parse is that of the first pattern, in the order
  github, gitlab, bitbucket, that occurs in the host of the expanded URL, and github
  when none occurs. Whether \<^verbatim>\<open>parse\<close> succeeds does not depend on the host: once the
  schema accepts the input and the path gives owner and repo, it succeeds.
\<close>

theorem provider_first_match:
  "(fst (parse U fetch url opts) = Inr r \<longrightarrow>
      (\<exists>u. U (expand url) = Some u \<and>
         provider (metadata r) =
           (if js_includes (hostname u) ''github.com'' then github
            else if js_includes (hostname u) ''gitlab.com'' then gitlab
            else if js_includes (hostname u) ''bitbucket.org'' then bitbucket
            else github))) \<and>
   (gitUrlSchema U url \<and> U (expand url) = Some u \<and> pathSegments u = own # rp # rest \<and>
    strip_git rp \<noteq> [] \<longrightarrow> (\<exists>r. fst (parse U fetch url opts) = Inr r))"
proof -
  have a: "\<exists>u. U (expand url) = Some u \<and>
         provider (metadata r) =
           (if js_includes (hostname u) ''github.com'' then github
            else if js_includes (hostname u) ''gitlab.com'' then gitlab
            else if js_includes (hostname u) ''bitbucket.org'' then bitbucket
            else github)"
    if "fst (parse U fetch url opts) = Inr r"
  proof -
    from that obtain u' where "U (expand url) = Some u'"
      "provider (metadata r) = detect_provider (hostname u')"
      unfolding parse_Inr_iff by (auto simp: parsed_def)
    then show ?thesis
      by (intro exI [of _ u']) (simp only: detect_provider_cascade simp_thms)
  qed
  have b: "\<exists>r. fst (parse U fetch url opts) = Inr r"
    if "gitUrlSchema U url \<and> U (expand url) = Some u \<and> pathSegments u = own # rp # rest \<and>
      strip_git rp \<noteq> []"
    using that unfolding parse_Inr_iff by blast
  from a b show ?thesis by blast
qed

theorem provider_first_match_witness:
  "gitUrlSchema (URL_new ascii_only) ''https://gitlab.com.bitbucket.org/user/repo'' \<and>
   URL_new ascii_only (expand ''https://gitlab.com.bitbucket.org/user/repo'') =
     Some \<lparr> hostname = ''gitlab.com.bitbucket.org'', pathname = ''/user/repo'' \<rparr> \<and>
   pathSegments \<lparr> hostname = ''gitlab.com.bitbucket.org'', pathname = ''/user/repo'' \<rparr> =
     ''user'' # ''repo'' # [] \<and>
   strip_git ''repo'' \<noteq> [] \<and>
   (\<exists>r. fst (parse (URL_new ascii_only) offline ''https://gitlab.com.bitbucket.org/user/repo''
            no_options) = Inr r \<and> provider (metadata r) = gitlab)"
proof -
  let ?url = "''https://gitlab.com.bitbucket.org/user/repo''"
  let ?u = "\<lparr> hostname = ''gitlab.com.bitbucket.org'', pathname = ''/user/repo'' \<rparr>"
  note t = provider_first_match [of "URL_new ascii_only" offline ?url no_options]
  have g: "gitUrlSchema (URL_new ascii_only) ?url" by code_simp
  have u: "URL_new ascii_only (expand ?url) = Some ?u" by code_simp
  have s: "pathSegments ?u = ''user'' # ''repo'' # []" by code_simp
  have n: "strip_git ''repo'' \<noteq> []" by code_simp
  from t [THEN conjunct2, rule_format, OF conjI [OF g conjI [OF u conjI [OF s n]]]]
  obtain r where p: "fst (parse (URL_new ascii_only) offline ?url no_options) = Inr r" ..
  from t [THEN conjunct1, rule_format, OF p] u
  have "provider (metadata r) =
           (if js_includes (hostname ?u) ''github.com'' then github
            else if js_includes (hostname ?u) ''gitlab.com'' then gitlab
            else if js_includes (hostname ?u) ''bitbucket.org'' then bitbucket
            else github)"
    by (auto simp del: js_includes.simps)
  also have "\<dots> = gitlab" by code_simp
  finally have "provider (metadata r) = gitlab" .
  with p have "\<exists>r. fst (parse (URL_new ascii_only) offline ?url no_options) = Inr r \<and>
     provider (metadata r) = gitlab" by blast
  with g u s n show ?thesis by (intro conjI)
qed

text \<open>
  C10. If \<^verbatim>\<open>parse\<close> succeeds on an input under one lookup behaviour and token, it succeeds
  on that input under any other, and the two results agree on owner, repo, branch,
  commit, provider, \<^verbatim>\<open>normalizedUrl\<close> and \<^verbatim>\<open>originalUrl\<close>.
\<close>

theorem lookup_affects_only_isPrivate:
  assumes "fst (parse U fetch1 url opts1) = Inr r1"
  shows "\<exists>r2. fst (parse U fetch2 url opts2) = Inr r2 \<and>
     owner (metadata r1) = owner (metadata r2) \<and> repo (metadata r1) = repo (metadata r2) \<and>
     branch (metadata r1) = branch (metadata r2) \<and> commit (metadata r1) = commit (metadata r2) \<and>
     provider (metadata r1) = provider (metadata r2) \<and>
     normalizedUrl r1 = normalizedUrl r2 \<and> originalUrl r1 = originalUrl r2"
proof -
  from assms obtain u own rp rest where
    g: "gitUrlSchema U url" and u: "U (expand url) = Some u" and
    ps: "pathSegments u = own # rp # rest" and ne: "strip_git rp \<noteq> []" and
    r1: "r1 = parsed u (expand url) own (strip_git rp)
              (if detect_provider (hostname u) = github
               then fst (lookup_visibility fetch1 opts1 own (strip_git rp)) else JBool False)"
    unfolding parse_Inr_iff by blast
  define r2 where "r2 = parsed u (expand url) own (strip_git rp)
              (if detect_provider (hostname u) = github
               then fst (lookup_visibility fetch2 opts2 own (strip_git rp)) else JBool False)"
  have "fst (parse U fetch2 url opts2) = Inr r2"
    unfolding parse_Inr_iff r2_def using g u ps ne by blast
  then show ?thesis
    by (intro exI [of _ r2]) (simp add: r1 r2_def parsed_def)
qed

theorem lookup_affects_only_isPrivate_witness:
  "fst (parse (URL_new ascii_only) private_repo ''https://github.com/user/repo/tree/dev'' with_token) =
     Inr \<lparr> metadata = \<lparr> owner = ''user'', repo = ''repo'', branch = Some ''dev'', commit = None,
                  provider = github, isPrivate = JBool True \<rparr>,
           normalizedUrl = ''https://github.com/user/repo'',
           originalUrl = ''https://github.com/user/repo/tree/dev'' \<rparr> \<and>
   (\<exists>r2. fst (parse (URL_new ascii_only) offline ''https://github.com/user/repo/tree/dev'' no_options)
            = Inr r2 \<and>
      ''user'' = owner (metadata r2) \<and> ''repo'' = repo (metadata r2) \<and>
      Some ''dev'' = branch (metadata r2) \<and> None = commit (metadata r2) \<and>
      github = provider (metadata r2) \<and>
      ''https://github.com/user/repo'' = normalizedUrl r2 \<and>
      ''https://github.com/user/repo/tree/dev'' = originalUrl r2)"
proof -
  let ?r = "\<lparr> metadata = \<lparr> owner = ''user'', repo = ''repo'', branch = Some ''dev'', commit = None,
                  provider = github, isPrivate = JBool True \<rparr>,
           normalizedUrl = ''https://github.com/user/repo'',
           originalUrl = ''https://github.com/user/repo/tree/dev'' \<rparr>"
  have h: "fst (parse (URL_new ascii_only) private_repo ''https://github.com/user/repo/tree/dev''
             with_token) = Inr ?r"
    by code_simp
  from lookup_affects_only_isPrivate [OF h, of offline no_options] h
  show ?thesis by simp
qed

section \<open>Claims about shorthand inputs and normalised URLs\<close>

text \<open>
  C1 (amended). For every input that does not contain \<^verbatim>\<open>://\<close>: if it does not match the
  shorthand pattern, \<^verbatim>\<open>parse\<close> fails with InvalidFormat; if it matches and its second
  segment is \<^verbatim>\<open>.\<close>, \<^verbatim>\<open>..\<close> or \<^verbatim>\<open>.git\<close>, \<^verbatim>\<open>parse\<close> fails with MissingOwnerOrRepo; if it
  matches otherwise, \<^verbatim>\<open>parse\<close> succeeds with provider github, the first segment as owner
  and the second, without one trailing \<^verbatim>\<open>.git\<close>, as repo.
\<close>

theorem shorthand_parse:
  assumes "\<not> js_includes url ''://''"
  shows "(\<not> shorthand_re url \<longrightarrow>
            parse (URL_new ext) fetch url opts = (Inl InvalidFormat, [])) \<and>
         (shorthand_re url \<and> tl (dropWhile is_word_hyphen url) \<in> {''.'', ''..'', ''.git''} \<longrightarrow>
            parse (URL_new ext) fetch url opts = (Inl MissingOwnerOrRepo, [])) \<and>
         (shorthand_re url \<and> tl (dropWhile is_word_hyphen url) \<notin> {''.'', ''..'', ''.git''} \<longrightarrow>
            (\<exists>r. fst (parse (URL_new ext) fetch url opts) = Inr r \<and>
               provider (metadata r) = github \<and>
               owner (metadata r) = takeWhile is_word_hyphen url \<and>
               repo (metadata r) = strip_git (tl (dropWhile is_word_hyphen url))))"
proof -
  have a: "parse (URL_new ext) fetch url opts = (Inl InvalidFormat, [])" if "\<not> shorthand_re url"
    using that assms by (simp add: parse_def gitUrlSchema_def)
  have b: "parse (URL_new ext) fetch url opts = (Inl MissingOwnerOrRepo, [])"
    if "shorthand_re url" "tl (dropWhile is_word_hyphen url) \<in> {''.'', ''..'', ''.git''}"
    using that by (rule parse_shorthand(1))
  have c: "\<exists>r. fst (parse (URL_new ext) fetch url opts) = Inr r \<and>
               provider (metadata r) = github \<and>
               owner (metadata r) = takeWhile is_word_hyphen url \<and>
               repo (metadata r) = strip_git (tl (dropWhile is_word_hyphen url))"
    if h: "shorthand_re url" "tl (dropWhile is_word_hyphen url) \<notin> {''.'', ''..'', ''.git''}"
  proof -
    let ?a = "takeWhile is_word_hyphen url" and ?b = "tl (dropWhile is_word_hyphen url)"
    define r where "r = parsed \<lparr> hostname = ''github.com'', pathname = ''/'' @ ?a @ ''/'' @ ?b \<rparr>
                    (''https://github.com/'' @ ?a @ ''/'' @ ?b) ?a (strip_git ?b)
                    (fst (lookup_visibility fetch opts ?a (strip_git ?b)))"
    have "fst (parse (URL_new ext) fetch url opts) = Inr r"
      unfolding r_def using h by (rule parse_shorthand(2))
    moreover have "provider (metadata r) = github" "owner (metadata r) = ?a"
      "repo (metadata r) = strip_git ?b"
      by (simp_all add: r_def parsed_def detect_github)
    ultimately show ?thesis by blast
  qed
  from a b c show ?thesis by blast
qed

theorem shorthand_parse_witness:
  "\<not> js_includes ''invalid-url'' ''://'' \<and> \<not> shorthand_re ''invalid-url'' \<and>
   parse (URL_new ascii_only) offline ''invalid-url'' no_options = (Inl InvalidFormat, []) \<and>
   \<not> js_includes ''user/..'' ''://'' \<and> shorthand_re ''user/..'' \<and>
   tl (dropWhile is_word_hyphen ''user/..'') \<in> {''.'', ''..'', ''.git''} \<and>
   parse (URL_new ascii_only) offline ''user/..'' no_options = (Inl MissingOwnerOrRepo, []) \<and>
   \<not> js_includes ''user/repo.git'' ''://'' \<and> shorthand_re ''user/repo.git'' \<and>
   tl (dropWhile is_word_hyphen ''user/repo.git'') \<notin> {''.'', ''..'', ''.git''} \<and>
   (\<exists>r. fst (parse (URL_new ascii_only) offline ''user/repo.git'' no_options) = Inr r \<and>
      provider (metadata r) = github \<and>
      owner (metadata r) = takeWhile is_word_hyphen ''user/repo.git'' \<and>
      repo (metadata r) = strip_git (tl (dropWhile is_word_hyphen ''user/repo.git'')))"
proof -
  have i1: "\<not> js_includes ''invalid-url'' ''://''" by code_simp
  have s1: "\<not> shorthand_re ''invalid-url''" by code_simp
  have i2: "\<not> js_includes ''user/..'' ''://''" by code_simp
  have s2: "shorthand_re ''user/..''" by code_simp
  have t2: "tl (dropWhile is_word_hyphen ''user/..'') = ''..''" by code_simp
  then have m2: "tl (dropWhile is_word_hyphen ''user/..'') \<in> {''.'', ''..'', ''.git''}" by simp
  have i3: "\<not> js_includes ''user/repo.git'' ''://''" by code_simp
  have s3: "shorthand_re ''user/repo.git''" by code_simp
  have t3: "tl (dropWhile is_word_hyphen ''user/repo.git'') = ''repo.git''" by code_simp
  then have m3: "tl (dropWhile is_word_hyphen ''user/repo.git'') \<notin> {''.'', ''..'', ''.git''}"
    by simp
  note c1 = shorthand_parse [OF i1, of ascii_only offline no_options, THEN conjunct1,
      rule_format, OF s1]
  note c2 = shorthand_parse [OF i2, of ascii_only offline no_options, THEN conjunct2,
      THEN conjunct1, rule_format, OF conjI [OF s2 m2]]
  note c3 = shorthand_parse [OF i3, of ascii_only offline no_options, THEN conjunct2,
      THEN conjunct2, rule_format, OF conjI [OF s3 m3]]
  from i1 s1 c1 i2 s2 m2 c2 i3 s3 m3 c3 show ?thesis by (intro conjI)
qed

text \<open>
  C1 as stated fails: \<^verbatim>\<open>user/.git\<close> has no \<^verbatim>\<open>://\<close> and matches the shorthand pattern, but
  its repo is empty once \<^verbatim>\<open>.git\<close> is removed, and \<^verbatim>\<open>parse\<close> fails.
\<close>

theorem shorthand_dot_git_counterexample:
  "\<not> js_includes ''user/.git'' ''://'' \<and> shorthand_re ''user/.git'' \<and>
   parse (URL_new ascii_only) offline ''user/.git'' no_options = (Inl MissingOwnerOrRepo, [])"
  by code_simp






end
